theory Spec2Isabelle
  imports Main "HOL-Library.Word"
begin

section \<open>Data of \<^verbatim>\<open>main.cpp\<close>\<close>

text \<open>
  The program captures colour frames from a RealSense camera, hands each one to the
  hardware video encoder (library HVE) and dumps the encoded packets to a file.
  C++ \<^verbatim>\<open>int\<close> is a 32-bit word read in two's complement (\<open>sint\<close>); signed overflow,
  undefined in C++, is modelled as the wrap-around of the usual targets.
\<close>

type_synonym byte = "8 word"
type_synonym c_int = "32 word"

text \<open>\<^verbatim>\<open>struct input_args\<close>: the user supplied input.\<close>

record input_args =
  width :: c_int
  height :: c_int
  framerate :: c_int
  seconds :: c_int
  filename :: string

text \<open>\<^verbatim>\<open>struct hve_config\<close> of \<^verbatim>\<open>hve.h\<close>, the fields the program sets.\<close>

record hve_config =
  config_width :: c_int
  config_height :: c_int
  config_framerate :: c_int
  config_pixel_format :: string

text \<open>
  \<^verbatim>\<open>rs2::video_frame\<close>, with the getters the program calls; \<^verbatim>\<open>hve_frame\<close>, whose plane 0
  is the only one the program fills (the other planes stay zero from \<^verbatim>\<open>frame = {0}\<close>);
  \<^verbatim>\<open>AVPacket\<close>, the \<^verbatim>\<open>size\<close> bytes at \<^verbatim>\<open>data\<close>.
\<close>

record video_frame =
  get_frame_number :: nat
  get_width :: c_int
  get_height :: c_int
  get_stride_in_bytes :: c_int
  get_data :: "byte list"

record hve_frame =
  linesize0 :: c_int
  data0 :: "byte list"

type_synonym AVPacket = "byte list"

section \<open>The collaborators\<close>

text \<open>
  The camera pipeline (librealsense) and the encoder (HVE) are libraries outside the
  repository. They are parameters of the model: a camera state \<open>'c\<close> and an encoder state
  \<open>'e\<close> with the three calls \<^verbatim>\<open>main_loop\<close> makes. \<^verbatim>\<open>hve_send_frame\<close> takes \<open>None\<close> for the NULL
  frame; \<^verbatim>\<open>hve_receive_packet\<close> returns the packet (or \<open>None\<close> for NULL) together with the
  value it stores in \<^verbatim>\<open>*failed\<close>. \<open>HVE_OK\<close> is the constant of \<^verbatim>\<open>hve.h\<close>. Each call is taken to
  return: an exception thrown inside librealsense ends the program outside this model.
\<close>

record ('c, 'e) collaborators =
  wait_for_frames :: "'c \<Rightarrow> video_frame \<times> 'c"
  hve_send_frame :: "'e \<Rightarrow> hve_frame option \<Rightarrow> c_int \<times> 'e"
  hve_receive_packet :: "'e \<Rightarrow> (AVPacket option \<times> c_int) \<times> 'e"
  HVE_OK :: c_int

text \<open>
  Every call to a collaborator is recorded, in order, with what it returned: the history
  is how the theorems below count pulls and submissions.
\<close>

datatype event =
  WaitForFrames video_frame
| SendFrame "hve_frame option" c_int
| ReceivePacket "AVPacket option" c_int

text \<open>
  The state \<^verbatim>\<open>main_loop\<close> works on: the pipeline \<^verbatim>\<open>realsense\<close>, the encoder \<^verbatim>\<open>he\<close>, the bytes
  written to \<^verbatim>\<open>out_file\<close> so far, and the history of calls. Console output
  (\<^verbatim>\<open>cout\<close>, \<^verbatim>\<open>cerr\<close>, \<^verbatim>\<open>dump_frame_info\<close>) is not part of the state.
\<close>

record ('c, 'e) world =
  realsense :: 'c
  he :: 'e
  out_file :: "byte list"
  history :: "event list"

definition pull :: "('c, 'e) collaborators \<Rightarrow> ('c, 'e) world \<Rightarrow> video_frame \<times> ('c, 'e) world" where
  "pull api w =
     (case wait_for_frames api (realsense w) of
        (c_frame, c') \<Rightarrow> (c_frame, w\<lparr>realsense := c', history := history w @ [WaitForFrames c_frame]\<rparr>))"

definition send :: "('c, 'e) collaborators \<Rightarrow> hve_frame option \<Rightarrow> ('c, 'e) world \<Rightarrow> c_int \<times> ('c, 'e) world" where
  "send api frame w =
     (case hve_send_frame api (he w) frame of
        (r, e') \<Rightarrow> (r, w\<lparr>he := e', history := history w @ [SendFrame frame r]\<rparr>))"

definition receive :: "('c, 'e) collaborators \<Rightarrow> ('c, 'e) world \<Rightarrow> (AVPacket option \<times> c_int) \<times> ('c, 'e) world" where
  "receive api w =
     (case hve_receive_packet api (he w) of
        ((packet, failed), e') \<Rightarrow>
          ((packet, failed), w\<lparr>he := e', history := history w @ [ReceivePacket packet failed]\<rparr>))"

definition out_file_write :: "AVPacket \<Rightarrow> ('c, 'e) world \<Rightarrow> ('c, 'e) world" where
  "out_file_write packet w = w\<lparr>out_file := out_file w @ packet\<rparr>"

section \<open>\<^verbatim>\<open>main_loop\<close>\<close>

text \<open>\<^verbatim>\<open>for (auto i = 0; i < 10; ++i) realsense.wait_for_frames();\<close>\<close>

function warm_up :: "('c, 'e) collaborators \<Rightarrow> int \<Rightarrow> ('c, 'e) world \<Rightarrow> ('c, 'e) world" where
  "warm_up api i w = (if i < 10 then warm_up api (i + 1) (snd (pull api w)) else w)"
  by pat_completeness auto
termination
  by (relation "measure (\<lambda>(api, i, w). nat (10 - i))") auto

declare warm_up.simps [simp del]

text \<open>
  \<^verbatim>\<open>while( (packet=hve_receive_packet(he, &failed)) ) out_file.write(packet->data, packet->size);\<close>
  The loop runs for as long as the encoder returns packets, which may be forever: the
  result is \<open>None\<close> then. Otherwise it is the last value stored in \<^verbatim>\<open>failed\<close> and the state.
\<close>

partial_function (option) receive_loop ::
  "('c, 'e) collaborators \<Rightarrow> ('c, 'e) world \<Rightarrow> (c_int \<times> ('c, 'e) world) option" where
  "receive_loop api w =
     (case receive api w of
        ((None, failed), w') \<Rightarrow> Some (failed, w')
      | ((Some packet, failed), w') \<Rightarrow> receive_loop api (out_file_write packet w'))"

declare receive_loop.simps [code]

text \<open>The frame handed to the encoder: stride and data of the colour frame, in plane 0.\<close>

definition supply_frame :: "video_frame \<Rightarrow> hve_frame" where
  "supply_frame c_frame = \<lparr>linesize0 = get_stride_in_bytes c_frame, data0 = get_data c_frame\<rparr>"

text \<open>
  \<^verbatim>\<open>for(f = 0; f < frames; ++f)\<close> with its two \<^verbatim>\<open>break\<close>s; the result is the value of \<^verbatim>\<open>f\<close>
  when the loop is left.
\<close>

function frame_loop ::
  "('c, 'e) collaborators \<Rightarrow> c_int \<Rightarrow> c_int \<Rightarrow> ('c, 'e) world \<Rightarrow> (c_int \<times> ('c, 'e) world) option" where
  "frame_loop api frames f w =
     (if f <s frames then
        (case pull api w of (c_frame, w1) \<Rightarrow>
         (case send api (Some (supply_frame c_frame)) w1 of (r, w2) \<Rightarrow>
            if r \<noteq> HVE_OK api then Some (f, w2)
            else (case receive_loop api w2 of
                    None \<Rightarrow> None
                  | Some (failed, w3) \<Rightarrow>
                      if failed \<noteq> HVE_OK api then Some (f, w3)
                      else frame_loop api frames (f + 1) w3)))
      else Some (f, w))"
  by pat_completeness auto
termination
proof (relation "measure (\<lambda>(api, frames, f, w). nat (sint frames - sint f))", goal_cases)
  case 1
  show ?case by simp
next
  case (2 api frames f w)
  from \<open>f <s frames\<close> have less: "sint f < sint frames"
    by (simp add: word_sless_alt)
  moreover have "sint frames < 2 ^ 31"
    using sint_lt [of frames] by simp
  moreover have "- (2 ^ 31) \<le> sint f"
    using sint_ge [of f] by simp
  ultimately have "sint (f + 1) = sint f + 1"
    by (simp add: sint_word_ariths signed_take_bit_int_eq_self)
  with less show ?case
    by simp
qed

declare frame_loop.simps [simp del]

text \<open>\<^verbatim>\<open>const int frames = input.seconds * input.framerate;\<close>\<close>

definition frames_of :: "input_args \<Rightarrow> c_int" where
  "frames_of input = seconds input * framerate input"

text \<open>
  \<^verbatim>\<open>main_loop\<close>: warm-up, the frame loop, then the flush (NULL frame, drain), and
  \<^verbatim>\<open>return f==frames\<close>.
\<close>

definition main_loop ::
  "('c, 'e) collaborators \<Rightarrow> input_args \<Rightarrow> ('c, 'e) world \<Rightarrow> (bool \<times> ('c, 'e) world) option" where
  "main_loop api input w =
     (let frames = frames_of input;
          w0 = warm_up api 0 w
      in case frame_loop api frames 0 w0 of
           None \<Rightarrow> None
         | Some (f, w1) \<Rightarrow>
             (case send api None w1 of (r, w2) \<Rightarrow>
                (case receive_loop api w2 of
                   None \<Rightarrow> None
                 | Some (failed, w3) \<Rightarrow> Some (f = frames, w3))))"

section \<open>\<^verbatim>\<open>main\<close>\<close>

text \<open>
  What \<^verbatim>\<open>main\<close> takes from its platform: \<^verbatim>\<open>atoi\<close> of the C library, whether the
  \<^verbatim>\<open>ofstream\<close> of a file name opens, the pipeline that \<^verbatim>\<open>init_realsense\<close> starts for a
  width, height and framerate, and \<^verbatim>\<open>hve_init\<close> (\<open>None\<close> for NULL).
\<close>

record ('c, 'e) platform =
  atoi :: "string \<Rightarrow> c_int"
  ofstream_open :: "string \<Rightarrow> bool"
  pipe_start :: "c_int \<Rightarrow> c_int \<Rightarrow> c_int \<Rightarrow> 'c"
  hve_init :: "hve_config \<Rightarrow> 'e option"

text \<open>
  \<^verbatim>\<open>process_user_input\<close>: \<^verbatim>\<open>argc\<close> is the length of \<^verbatim>\<open>argv\<close>; the result is the return value
  with the two structures as the function leaves them.
\<close>

definition process_user_input ::
  "(string \<Rightarrow> c_int) \<Rightarrow> string list \<Rightarrow> input_args \<Rightarrow> hve_config \<Rightarrow> c_int \<times> input_args \<times> hve_config" where
  "process_user_input atoi_fn argv input config =
     (if int (length argv) < 6 then (- 1, input, config)
      else (0,
            input\<lparr>width := atoi_fn (argv ! 1), height := atoi_fn (argv ! 2),
                  framerate := atoi_fn (argv ! 3), seconds := atoi_fn (argv ! 4),
                  filename := argv ! 5\<rparr>,
            config\<lparr>config_width := atoi_fn (argv ! 1), config_height := atoi_fn (argv ! 2),
                   config_framerate := atoi_fn (argv ! 3), config_pixel_format := ''yuyv422''\<rparr>))"

definition init_realsense :: "('c, 'e) platform \<Rightarrow> input_args \<Rightarrow> 'c" where
  "init_realsense pf input = pipe_start pf (width input) (height input) (framerate input)"

text \<open>
  \<^verbatim>\<open>main\<close> returns the exit code, or \<open>None\<close> when \<^verbatim>\<open>main_loop\<close> does not return. Both structures
  start zeroed (\<^verbatim>\<open>= {0}\<close>). The status of \<^verbatim>\<open>main_loop\<close> only decides what is printed; closing the
  encoder and the file changes nothing the exit code depends on.
\<close>

definition main ::
  "('c, 'e) platform \<Rightarrow> ('c, 'e) collaborators \<Rightarrow> string list \<Rightarrow> c_int option" where
  "main pf api argv =
     (case process_user_input (atoi pf) argv
             \<lparr>width = 0, height = 0, framerate = 0, seconds = 0, filename = []\<rparr>
             \<lparr>config_width = 0, config_height = 0, config_framerate = 0, config_pixel_format = []\<rparr> of
        (ret, user_input, hardware_config) \<Rightarrow>
          if ret <s 0 then Some 1
          else if \<not> ofstream_open pf (filename user_input) then Some 2
          else (case hve_init pf hardware_config of
                  None \<Rightarrow> Some 3
                | Some hardware_encoder \<Rightarrow>
                    (case main_loop api user_input
                            \<lparr>realsense = init_realsense pf user_input, he = hardware_encoder,
                             out_file = [], history = []\<rparr> of
                       None \<Rightarrow> None
                     | Some (status, w) \<Rightarrow> Some 0)))"

section \<open>Reading a history\<close>

text \<open>The events a run added to the history.\<close>

definition new_events :: "('c, 'e) world \<Rightarrow> ('c, 'e) world \<Rightarrow> event list" where
  "new_events w w' = drop (length (history w)) (history w')"

text \<open>The frames submitted with their results, the flushes, the packets the encoder
  emitted and the frames pulled, each in the order of the history.\<close>

fun frame_submissions :: "event list \<Rightarrow> (hve_frame \<times> c_int) list" where
  "frame_submissions [] = []"
| "frame_submissions (SendFrame (Some frame) r # es) = (frame, r) # frame_submissions es"
| "frame_submissions (e # es) = frame_submissions es"

fun flushes :: "event list \<Rightarrow> c_int list" where
  "flushes [] = []"
| "flushes (SendFrame None r # es) = r # flushes es"
| "flushes (e # es) = flushes es"

fun emitted :: "event list \<Rightarrow> AVPacket list" where
  "emitted [] = []"
| "emitted (ReceivePacket (Some packet) failed # es) = packet # emitted es"
| "emitted (e # es) = emitted es"

fun pulls :: "event list \<Rightarrow> video_frame list" where
  "pulls [] = []"
| "pulls (WaitForFrames c_frame # es) = c_frame # pulls es"
| "pulls (e # es) = pulls es"

text \<open>The part of a history before the first NULL frame is sent.\<close>

fun before_flush :: "event list \<Rightarrow> event list" where
  "before_flush [] = []"
| "before_flush (SendFrame None r # es) = []"
| "before_flush (e # es) = e # before_flush es"

text \<open>
  A failure of the frame loop: a frame submission that did not return \<open>HVE_OK\<close>, or a drain
  that ended (NULL packet) with \<^verbatim>\<open>failed\<close> other than \<open>HVE_OK\<close>.
\<close>

fun failure :: "c_int \<Rightarrow> event \<Rightarrow> bool" where
  "failure ok (SendFrame (Some frame) r) = (r \<noteq> ok)"
| "failure ok (ReceivePacket None failed) = (failed \<noteq> ok)"
| "failure ok e = False"

text \<open>
  Drained to the end: after a frame submission that succeeded, the polls go on until one
  returns no packet, before the next submission (of a frame or of NULL) and before the end.
  The flag says whether such a poll is still owed.
\<close>

fun drained :: "c_int \<Rightarrow> bool \<Rightarrow> event list \<Rightarrow> bool" where
  "drained ok owed [] = (\<not> owed)"
| "drained ok owed (WaitForFrames c_frame # es) = drained ok owed es"
| "drained ok owed (SendFrame frame r # es) = (\<not> owed \<and> drained ok (frame \<noteq> None \<and> r = ok) es)"
| "drained ok owed (ReceivePacket packet failed # es) = drained ok (owed \<and> packet \<noteq> None) es"


text \<open>The events of one drain: the packets polled, then the poll that found none.\<close>

fun poll_events :: "(AVPacket \<times> c_int) list \<Rightarrow> c_int \<Rightarrow> event list" where
  "poll_events [] failed = [ReceivePacket None failed]"
| "poll_events ((packet, r) # ps) failed = ReceivePacket (Some packet) r # poll_events ps failed"

text \<open>
  The histories of the frame loop, from counter \<open>f\<close> to the counter \<open>f'\<close> it is left with:
  the loop is over, a submission is rejected, a drain ends in failure, or a cycle
  completes and the loop goes on.
\<close>

inductive loop_history :: "c_int \<Rightarrow> c_int \<Rightarrow> c_int \<Rightarrow> event list \<Rightarrow> c_int \<Rightarrow> bool"
  for ok :: c_int and frames :: c_int where
  over: "\<not> f <s frames \<Longrightarrow> loop_history ok frames f [] f"
| rejected: "f <s frames \<Longrightarrow> r \<noteq> ok \<Longrightarrow>
    loop_history ok frames f [WaitForFrames c, SendFrame (Some (supply_frame c)) r] f"
| encode_failed: "f <s frames \<Longrightarrow> failed \<noteq> ok \<Longrightarrow>
    loop_history ok frames f
      (WaitForFrames c # SendFrame (Some (supply_frame c)) ok # poll_events ps failed) f"
| cycle: "f <s frames \<Longrightarrow> loop_history ok frames (f + 1) evs f' \<Longrightarrow>
    loop_history ok frames f
      (WaitForFrames c # SendFrame (Some (supply_frame c)) ok # poll_events ps ok @ evs) f'"

text \<open>
  An encoder whose drains end: each packet it returns lowers a measure of its state. A
  drain of such an encoder polls finitely often before it gets NULL.
\<close>

definition drains :: "('c, 'e) collaborators \<Rightarrow> ('e \<Rightarrow> nat) \<Rightarrow> bool" where
  "drains api m =
     (\<forall>e packet r e'. hve_receive_packet api e = ((Some packet, r), e') \<longrightarrow> m e' < m e)"

section \<open>Test doubles\<close>

text \<open>
  A camera that numbers its frames, and an encoder that counts the frames submitted and
  queues packets: submission number \<open>n\<close> is rejected when \<open>n = fail_at\<close> and queues
  \<open>ready n\<close> otherwise; the NULL frame queues \<open>at_flush\<close> and returns \<open>flush_code\<close>, which
  from then on is also what a poll of the empty queue stores in \<^verbatim>\<open>failed\<close>; a poll takes the
  head of the queue.
\<close>

type_synonym fake_encoder = "nat \<times> AVPacket list \<times> c_int"

definition fake_wait_for_frames :: "nat \<Rightarrow> video_frame \<times> nat" where
  "fake_wait_for_frames n =
     (\<lparr>get_frame_number = n, get_width = 640, get_height = 360,
       get_stride_in_bytes = 1280, get_data = []\<rparr>, Suc n)"

definition fake_send_frame ::
  "nat \<Rightarrow> (nat \<Rightarrow> AVPacket list) \<Rightarrow> AVPacket list \<Rightarrow> c_int \<Rightarrow> fake_encoder \<Rightarrow> hve_frame option
     \<Rightarrow> c_int \<times> fake_encoder" where
  "fake_send_frame fail_at ready at_flush flush_code e frame =
     (case e of (n, queue, code) \<Rightarrow>
        (case frame of
           None \<Rightarrow> (flush_code, (n, queue @ at_flush, flush_code))
         | Some fr \<Rightarrow>
             if Suc n = fail_at then (- 1, (Suc n, queue, code))
             else (0, (Suc n, queue @ ready (Suc n), code))))"

definition fake_receive_packet :: "fake_encoder \<Rightarrow> (AVPacket option \<times> c_int) \<times> fake_encoder" where
  "fake_receive_packet e =
     (case e of (n, queue, code) \<Rightarrow>
        (case queue of
           [] \<Rightarrow> ((None, code), (n, [], code))
         | packet # rest \<Rightarrow> ((Some packet, 0), (n, rest, code))))"

definition fake ::
  "nat \<Rightarrow> (nat \<Rightarrow> AVPacket list) \<Rightarrow> AVPacket list \<Rightarrow> c_int \<Rightarrow> (nat, fake_encoder) collaborators" where
  "fake fail_at ready at_flush flush_code =
     \<lparr>wait_for_frames = fake_wait_for_frames,
      hve_send_frame = fake_send_frame fail_at ready at_flush flush_code,
      hve_receive_packet = fake_receive_packet,
      HVE_OK = 0\<rparr>"

definition queued :: "fake_encoder \<Rightarrow> nat" where
  "queued e = (case e of (n, queue, code) \<Rightarrow> length queue)"

definition start :: "(nat, fake_encoder) world" where
  "start = \<lparr>realsense = 0, he = (0, [], 0), out_file = [], history = []\<rparr>"

definition args :: "c_int \<Rightarrow> c_int \<Rightarrow> input_args" where
  "args fps secs = \<lparr>width = 640, height = 360, framerate = fps, seconds = secs, filename = ''out.hevc''\<rparr>"

text \<open>Three packets for every frame; one packet for every second frame.\<close>

definition three_packets :: "nat \<Rightarrow> AVPacket list" where
  "three_packets n = [[1, of_nat n], [2, of_nat n], [3, of_nat n]]"

definition every_second :: "nat \<Rightarrow> AVPacket list" where
  "every_second n = (if even n then [[of_nat n]] else [])"

text \<open>
  A platform for \<^verbatim>\<open>main\<close>: \<^verbatim>\<open>atoi\<close> on strings of digits, every file opens, the camera starts
  at frame 0 and the encoder starts empty.
\<close>

definition fake_atoi :: "string \<Rightarrow> c_int" where
  "fake_atoi s = foldl (\<lambda>a c. 10 * a + (of_nat (of_char c) - 48)) 0 s"

definition fake_platform :: "(nat, fake_encoder) platform" where
  "fake_platform =
     \<lparr>atoi = fake_atoi, ofstream_open = (\<lambda>name. True), pipe_start = (\<lambda>w h fps. 0),
      hve_init = (\<lambda>config. Some (0, [], 0))\<rparr>"

text \<open>What a run returned and what it left, for reading off a concrete run.\<close>

definition run_status :: "('c, 'e) collaborators \<Rightarrow> input_args \<Rightarrow> ('c, 'e) world \<Rightarrow> bool option" where
  "run_status api input w = map_option fst (main_loop api input w)"

definition run_events :: "('c, 'e) collaborators \<Rightarrow> input_args \<Rightarrow> ('c, 'e) world \<Rightarrow> event list option" where
  "run_events api input w = map_option (\<lambda>(ok, w'). new_events w w') (main_loop api input w)"

definition run_submissions :: "('c, 'e) collaborators \<Rightarrow> input_args \<Rightarrow> ('c, 'e) world \<Rightarrow> c_int list option" where
  "run_submissions api input w = map_option (\<lambda>evs. map snd (frame_submissions evs)) (run_events api input w)"

definition run_output :: "('c, 'e) collaborators \<Rightarrow> input_args \<Rightarrow> ('c, 'e) world \<Rightarrow> byte list option" where
  "run_output api input w = map_option (\<lambda>(ok, w'). out_file w') (main_loop api input w)"

section \<open>What the loops do to the state\<close>

lemma history_pull: "pull api w = (c, w1) \<Longrightarrow>
  history w1 = history w @ [WaitForFrames c] \<and> out_file w1 = out_file w \<and> he w1 = he w"
  by (auto simp: pull_def split: prod.splits)

lemma history_send: "send api frame w = (r, w1) \<Longrightarrow>
  history w1 = history w @ [SendFrame frame r] \<and> out_file w1 = out_file w \<and> realsense w1 = realsense w"
  by (auto simp: send_def split: prod.splits)

lemma history_receive: "receive api w = ((packet, failed), w1) \<Longrightarrow>
  history w1 = history w @ [ReceivePacket packet failed] \<and> out_file w1 = out_file w \<and> realsense w1 = realsense w"
  by (auto simp: receive_def split: prod.splits)

lemma receive_loop_effect:
  assumes run: "receive_loop api w = Some y"
  shows "\<exists>ps. history (snd y) = history w @ poll_events ps (fst y)
      \<and> out_file (snd y) = out_file w @ concat (map fst ps)
      \<and> realsense (snd y) = realsense w"
proof -
  let ?P = "\<lambda>(api :: ('c, 'e) collaborators) (w :: ('c, 'e) world) y.
      \<exists>ps. history (snd y) = history w @ poll_events ps (fst y)
        \<and> out_file (snd y) = out_file w @ concat (map fst ps)
        \<and> realsense (snd y) = realsense w"
  have "?P api w y"
  proof (rule receive_loop.raw_induct [OF _ run])
    fix loop and api :: "('c, 'e) collaborators" and w :: "('c, 'e) world" and y
    assume IH: "\<And>api w y. loop api w = Some y \<Longrightarrow> ?P api w y"
      and body: "(case receive api w of
          ((None, failed), w') \<Rightarrow> Some (failed, w')
        | ((Some packet, failed), w') \<Rightarrow> loop api (out_file_write packet w')) = Some y"
    obtain packet r w1 where rcv: "receive api w = ((packet, r), w1)"
      by (metis prod.exhaust)
    note h = history_receive [OF rcv]
    show "?P api w y"
    proof (cases packet)
      case None
      with body rcv have "y = (r, w1)" by simp
      with h None show ?thesis
        by (intro exI [of _ "[]"]) simp
    next
      case (Some p)
      with body rcv have "loop api (out_file_write p w1) = Some y" by simp
      from IH [OF this] obtain ps where
        "history (snd y) = history (out_file_write p w1) @ poll_events ps (fst y)"
        "out_file (snd y) = out_file (out_file_write p w1) @ concat (map fst ps)"
        "realsense (snd y) = realsense (out_file_write p w1)"
        by blast
      with h Some show ?thesis
        by (intro exI [of _ "(p, r) # ps"]) (simp add: out_file_write_def)
    qed
  qed
  then show ?thesis .
qed

lemma receive_loop_history:
  "receive_loop api w = Some (failed, w') \<Longrightarrow>
   \<exists>ps. history w' = history w @ poll_events ps failed
      \<and> out_file w' = out_file w @ concat (map fst ps)
      \<and> realsense w' = realsense w"
  using receive_loop_effect [of api w "(failed, w')"] by simp

lemma emitted_append: "emitted (xs @ ys) = emitted xs @ emitted ys"
  by (induction xs rule: emitted.induct) simp_all

lemma emitted_poll_events: "emitted (poll_events ps failed) = map fst ps"
  by (induction ps failed rule: poll_events.induct) auto

lemma frame_loop_history:
  "frame_loop api frames f w = Some (f', w') \<Longrightarrow>
   \<exists>evs. loop_history (HVE_OK api) frames f evs f'
       \<and> history w' = history w @ evs
       \<and> out_file w' = out_file w @ concat (emitted evs)"
proof (induction api frames f w rule: frame_loop.induct)
  case (1 api frames f w)
  show ?case
  proof (cases "f <s frames")
    case False
    with "1.prems" have "f' = f" "w' = w"
      by (simp_all add: frame_loop.simps [of api frames f w])
    with False show ?thesis
      by (intro exI [of _ "[]"]) (simp add: loop_history.over)
  next
    case True
    obtain c w1 where p: "pull api w = (c, w1)"
      by (metis prod.exhaust)
    obtain r w2 where s: "send api (Some (supply_frame c)) w1 = (r, w2)"
      by (metis prod.exhaust)
    note hp = history_pull [OF p] and hs = history_send [OF s]
    show ?thesis
    proof (cases "r = HVE_OK api")
      case False
      with True p s "1.prems" have "f' = f" "w' = w2"
        by (simp_all add: frame_loop.simps [of api frames f w])
      with True False hp hs show ?thesis
        by (intro exI [of _ "[WaitForFrames c, SendFrame (Some (supply_frame c)) r]"])
           (simp add: loop_history.rejected)
    next
      case ok: True
      from True p s ok "1.prems" obtain failed w3 where
        d: "receive_loop api w2 = Some (failed, w3)"
        by (auto simp: frame_loop.simps [of api frames f w] split: option.splits)
      from receive_loop_history [OF d] obtain ps where
        hd: "history w3 = history w2 @ poll_events ps failed"
            "out_file w3 = out_file w2 @ concat (map fst ps)"
        by blast
      show ?thesis
      proof (cases "failed = HVE_OK api")
        case False
        with True p s ok d "1.prems" have "f' = f" "w' = w3"
          by (simp_all add: frame_loop.simps [of api frames f w])
        with True False ok hp hs hd show ?thesis
          by (intro exI [of _ "WaitForFrames c # SendFrame (Some (supply_frame c)) (HVE_OK api) # poll_events ps failed"])
             (simp add: loop_history.encode_failed emitted_poll_events)
      next
        case fine: True
        with True p s ok d "1.prems" have rest: "frame_loop api frames (f + 1) w3 = Some (f', w')"
          by (simp add: frame_loop.simps [of api frames f w])
        from ok fine have nn: "\<not> r \<noteq> HVE_OK api" "\<not> failed \<noteq> HVE_OK api"
          by simp_all
        from "1.IH" [OF True p [symmetric] s [symmetric] nn(1) d refl nn(2) rest] ok fine
        obtain evs where
          "loop_history (HVE_OK api) frames (f + 1) evs f'"
          "history w' = history w3 @ evs"
          "out_file w' = out_file w3 @ concat (emitted evs)"
          by auto
        with True ok fine hp hs hd show ?thesis
          by (intro exI [of _ "WaitForFrames c # SendFrame (Some (supply_frame c)) (HVE_OK api) # poll_events ps (HVE_OK api) @ evs"])
             (simp add: loop_history.cycle emitted_poll_events emitted_append)
      qed
    qed
  qed
qed

section \<open>The histories of the frame loop\<close>

lemma warm_up_history:
  "i \<le> 10 \<Longrightarrow>
   \<exists>fs. length fs = nat (10 - i)
      \<and> history (warm_up api i w) = history w @ map WaitForFrames fs
      \<and> out_file (warm_up api i w) = out_file w
      \<and> he (warm_up api i w) = he w"
proof (induction api i w rule: warm_up.induct)
  case (1 api i w)
  show ?case
  proof (cases "i < 10")
    case False
    with "1.prems" have "i = 10" by simp
    then show ?thesis by (simp add: warm_up.simps [of api 10 w])
  next
    case True
    obtain c w1 where p: "pull api w = (c, w1)"
      by (metis prod.exhaust)
    note hp = history_pull [OF p]
    from True have "i + 1 \<le> 10" by simp
    from "1.IH" [OF True this] p obtain fs where fs:
      "length fs = nat (10 - (i + 1))"
      "history (warm_up api (i + 1) w1) = history w1 @ map WaitForFrames fs"
      "out_file (warm_up api (i + 1) w1) = out_file w1"
      "he (warm_up api (i + 1) w1) = he w1"
      by auto
    from True p have unfold: "warm_up api i w = warm_up api (i + 1) w1"
      by (simp add: warm_up.simps [of api i w])
    from True fs hp have "length (c # fs) = nat (10 - i)"
      by simp
    with fs hp unfold show ?thesis
      by (intro exI [of _ "c # fs"]) simp
  qed
qed

lemma succ_sle: "f <s frames \<Longrightarrow> sint (f + 1 :: c_int) = sint f + 1"
proof -
  assume "f <s frames"
  then have "sint f < sint frames" by (simp add: word_sless_alt)
  moreover have "sint frames < 2 ^ 31" using sint_lt [of frames] by simp
  moreover have "- (2 ^ 31) \<le> sint f" using sint_ge [of f] by simp
  ultimately show ?thesis
    by (simp add: sint_word_ariths signed_take_bit_int_eq_self)
qed

lemma filter_failure_poll_events:
  "filter (failure ok) (poll_events ps failed) = (if failed = ok then [] else [ReceivePacket None failed])"
  by (induction ps failed rule: poll_events.induct) auto

lemma frame_submissions_append:
  "frame_submissions (xs @ ys) = frame_submissions xs @ frame_submissions ys"
  by (induction xs rule: frame_submissions.induct) simp_all

lemma frame_submissions_poll_events: "frame_submissions (poll_events ps failed) = []"
  by (induction ps failed rule: poll_events.induct) auto

lemma pulls_append: "pulls (xs @ ys) = pulls xs @ pulls ys"
  by (induction xs rule: pulls.induct) simp_all

lemma pulls_poll_events: "pulls (poll_events ps failed) = []"
  by (induction ps failed rule: poll_events.induct) auto

lemma flushes_append: "flushes (xs @ ys) = flushes xs @ flushes ys"
  by (induction xs rule: flushes.induct) simp_all

lemma flushes_poll_events: "flushes (poll_events ps failed) = []"
  by (induction ps failed rule: poll_events.induct) auto

lemma sless_neq: "f <s frames \<Longrightarrow> f \<noteq> (frames :: c_int)"
  by (auto simp: word_sless_alt)

lemma loop_history_counter:
  "loop_history ok frames f evs f' \<Longrightarrow> sint f \<le> sint frames \<Longrightarrow>
   sint f \<le> sint f' \<and> sint f' \<le> sint frames
   \<and> (f' = frames) = (filter (failure ok) evs = [])
   \<and> int (length (frame_submissions evs)) =
       sint f' - sint f + (if filter (failure ok) evs = [] then 0 else 1)"
proof (induction rule: loop_history.induct)
  case (over f)
  then have "sint f = sint frames"
    by (simp add: word_sless_alt)
  then have "f = frames"
    by (rule signed_word_eqI)
  then show ?case by simp
next
  case (rejected f r c)
  from rejected(1) have "f \<noteq> frames"
    by (rule sless_neq)
  with rejected show ?case by simp
next
  case (encode_failed f failed c ps)
  from encode_failed(1) have "f \<noteq> frames"
    by (rule sless_neq)
  with encode_failed show ?case
    by (simp add: filter_failure_poll_events frame_submissions_poll_events)
next
  case (cycle f evs f' c ps)
  from cycle.hyps(1) have "sint (f + 1) = sint f + 1" "sint f < sint frames"
    by (simp_all add: succ_sle word_sless_alt)
  with cycle.IH show ?case
    by (simp add: filter_failure_poll_events frame_submissions_poll_events
        frame_submissions_append)
qed

lemma loop_history_nothing:
  "loop_history ok frames f evs f' \<Longrightarrow> \<not> f <s frames \<Longrightarrow> evs = [] \<and> f' = f"
  by (induction rule: loop_history.induct) simp_all

lemma loop_history_pulls:
  "loop_history ok frames f evs f' \<Longrightarrow>
   length (pulls evs) = length (frame_submissions evs) \<and> flushes evs = []"
  by (induction rule: loop_history.induct)
     (simp_all add: pulls_append pulls_poll_events frame_submissions_append
        frame_submissions_poll_events flushes_append flushes_poll_events)

lemma loop_history_last_fails:
  "loop_history ok frames f evs f' \<Longrightarrow>
   butlast (map snd (frame_submissions evs)) = replicate (length (frame_submissions evs) - 1) ok"
proof (induction rule: loop_history.induct)
  case (cycle f evs f' c ps)
  then show ?case
    by (cases "frame_submissions evs")
       (simp_all add: frame_submissions_append frame_submissions_poll_events)
qed (simp_all add: frame_submissions_poll_events)

lemma drained_poll_events:
  "drained ok owed (poll_events ps failed @ es) = drained ok False es"
  by (induction ps failed arbitrary: owed rule: poll_events.induct) simp_all

lemma loop_history_drained:
  "loop_history ok frames f evs f' \<Longrightarrow> drained ok False es \<Longrightarrow> drained ok False (evs @ es)"
proof (induction rule: loop_history.induct)
  case (encode_failed f failed c ps)
  then show ?case using drained_poll_events [of ok True ps failed es] by simp
next
  case (cycle f evs f' c ps)
  then show ?case using drained_poll_events [of ok True ps ok "evs @ es"] by simp
qed simp_all



section \<open>Runs of \<^verbatim>\<open>main_loop\<close>\<close>

lemma receive_loop_returns:
  assumes d: "drains api m"
  shows "\<exists>failed w'. receive_loop api w = Some (failed, w')"
proof (induction w rule: measure_induct_rule [of "\<lambda>w. m (he w)"])
  case (less w)
  obtain packet r w1 where rcv: "receive api w = ((packet, r), w1)"
    by (metis prod.exhaust)
  show ?case
  proof (cases packet)
    case None
    with rcv show ?thesis
      by (simp add: receive_loop.simps [of api w])
  next
    case (Some p)
    with rcv have "hve_receive_packet api (he w) = ((Some p, r), he w1)"
      by (auto simp: receive_def split: prod.splits)
    with d have "m (he w1) < m (he w)"
      unfolding drains_def by blast
    then have "m (he (out_file_write p w1)) < m (he w)"
      by (simp add: out_file_write_def)
    from less.IH [OF this] Some rcv show ?thesis
      by (simp add: receive_loop.simps [of api w])
  qed
qed

lemma frame_loop_returns:
  "drains api m \<Longrightarrow> \<exists>f' w'. frame_loop api frames f w = Some (f', w')"
proof (induction api frames f w rule: frame_loop.induct)
  case (1 api frames f w)
  note d = \<open>drains api m\<close>
  show ?case
  proof (cases "f <s frames")
    case False
    then show ?thesis
      by (simp add: frame_loop.simps [of api frames f w])
  next
    case True
    obtain c w1 where p: "pull api w = (c, w1)"
      by (metis prod.exhaust)
    obtain r w2 where s: "send api (Some (supply_frame c)) w1 = (r, w2)"
      by (metis prod.exhaust)
    from receive_loop_returns [OF d, of w2] obtain failed w3 where
      dr: "receive_loop api w2 = Some (failed, w3)"
      by blast
    show ?thesis
    proof (cases "r \<noteq> HVE_OK api \<or> failed \<noteq> HVE_OK api")
      case True
      with \<open>f <s frames\<close> p s dr show ?thesis
        by (auto simp: frame_loop.simps [of api frames f w])
    next
      case False
      then have nn: "\<not> r \<noteq> HVE_OK api" "\<not> failed \<noteq> HVE_OK api"
        by simp_all
      from "1.IH" [OF True p [symmetric] s [symmetric] nn(1) dr refl nn(2) d]
      obtain f' w' where "frame_loop api frames (f + 1) w3 = Some (f', w')"
        by blast
      with True p s dr nn show ?thesis
        by (simp add: frame_loop.simps [of api frames f w])
    qed
  qed
qed

lemma main_loop_returns:
  assumes d: "drains api m"
  shows "\<exists>ok w'. main_loop api input w = Some (ok, w')"
proof -
  from frame_loop_returns [OF d, of "frames_of input" 0 "warm_up api 0 w"] obtain f w1 where
    l: "frame_loop api (frames_of input) 0 (warm_up api 0 w) = Some (f, w1)"
    by blast
  obtain r w2 where s: "send api None w1 = (r, w2)"
    by (metis prod.exhaust)
  from receive_loop_returns [OF d, of w2] obtain failed w3 where
    "receive_loop api w2 = Some (failed, w3)"
    by blast
  with l s show ?thesis
    by (simp add: main_loop_def Let_def)
qed

lemma main_loop_history:
  assumes run: "main_loop api input w = Some (ok, w')"
  shows "\<exists>fs evs f' r ps failed.
     length fs = 10
     \<and> loop_history (HVE_OK api) (frames_of input) 0 evs f'
     \<and> ok = (f' = frames_of input)
     \<and> history (warm_up api 0 w) = history w @ map WaitForFrames fs
     \<and> new_events w w' = map WaitForFrames fs @ evs @ SendFrame None r # poll_events ps failed
     \<and> out_file w' = out_file w @ concat (emitted evs) @ concat (map fst ps)"
proof -
  from warm_up_history [of 0 api w] obtain fs where fs:
    "length fs = 10" "history (warm_up api 0 w) = history w @ map WaitForFrames fs"
    "out_file (warm_up api 0 w) = out_file w"
    by auto
  from run obtain f w1 where l: "frame_loop api (frames_of input) 0 (warm_up api 0 w) = Some (f, w1)"
    by (auto simp: main_loop_def Let_def split: option.splits)
  obtain r w2 where s: "send api None w1 = (r, w2)"
    by (metis prod.exhaust)
  from run l s obtain failed where dr: "receive_loop api w2 = Some (failed, w')" and ok: "ok = (f = frames_of input)"
    by (auto simp: main_loop_def Let_def split: option.splits)
  from frame_loop_history [OF l] obtain evs where evs:
    "loop_history (HVE_OK api) (frames_of input) 0 evs f"
    "history w1 = history (warm_up api 0 w) @ evs"
    "out_file w1 = out_file (warm_up api 0 w) @ concat (emitted evs)"
    by blast
  from receive_loop_history [OF dr] obtain ps where ps:
    "history w' = history w2 @ poll_events ps failed"
    "out_file w' = out_file w2 @ concat (map fst ps)"
    by blast
  note hs = history_send [OF s]
  from fs evs ps hs have
    "new_events w w' = map WaitForFrames fs @ evs @ SendFrame None r # poll_events ps failed"
    by (simp add: new_events_def)
  moreover from fs evs ps hs have
    "out_file w' = out_file w @ concat (emitted evs) @ concat (map fst ps)"
    by simp
  ultimately show ?thesis
    using fs evs ok by blast
qed

section \<open>Facts shared by the claims\<close>

lemma before_flush_append:
  "flushes evs = [] \<Longrightarrow> before_flush (evs @ SendFrame None r # es) = evs"
  by (induction evs rule: flushes.induct) simp_all

lemma pulls_only:
  "flushes (map WaitForFrames fs) = [] \<and> frame_submissions (map WaitForFrames fs) = []
   \<and> filter (failure ok) (map WaitForFrames fs) = [] \<and> emitted (map WaitForFrames fs) = []
   \<and> pulls (map WaitForFrames fs) = fs"
  by (induction fs) simp_all

lemma fake_drains: "drains (fake fail_at ready at_flush flush_code) queued"
  by (auto simp: drains_def fake_def fake_receive_packet_def queued_def split: prod.splits list.splits)

lemma loop_from_zero_result:
  "loop_history ok frames 0 evs f' \<Longrightarrow>
   (f' = frames) = (int (length (frame_submissions evs)) = sint frames \<and> filter (failure ok) evs = [])"
proof (cases "sint (0 :: c_int) \<le> sint frames")
  case True
  assume "loop_history ok frames 0 evs f'"
  from loop_history_counter [OF this True] show ?thesis
    by (auto simp: sless_neq)
next
  case False
  assume l: "loop_history ok frames 0 evs f'"
  from False have "\<not> 0 <s frames"
    by (simp add: word_sless_alt)
  from loop_history_nothing [OF l this] False show ?thesis
    by auto
qed

lemma drained_pulls: "drained ok owed (map WaitForFrames fs @ es) = drained ok owed es"
  by (induction fs) simp_all

lemma drained_flush: "drained ok False (SendFrame None r # poll_events ps failed)"
  using drained_poll_events [of ok False ps failed "[]"] by simp


lemma receive_loop_step:
  assumes "hve_receive_packet api (he v) = ((Some packet, r), e')"
  shows "receive_loop api v =
     receive_loop api (v\<lparr>he := e', out_file := out_file v @ packet,
                           history := history v @ [ReceivePacket (Some packet) r]\<rparr>)"
proof -
  let ?v = "v\<lparr>he := e', history := history v @ [ReceivePacket (Some packet) r]\<rparr>"
  from assms have "receive_loop api v = receive_loop api (out_file_write packet ?v)"
    by (simp add: receive_loop.simps [of api v] receive_def)
  moreover have "out_file_write packet ?v =
      v\<lparr>he := e', out_file := out_file v @ packet,
        history := history v @ [ReceivePacket (Some packet) r]\<rparr>"
    by (cases v) (simp add: out_file_write_def)
  ultimately show ?thesis
    by simp
qed

lemma receive_loop_stop:
  "hve_receive_packet api (he v) = ((None, failed), e') \<Longrightarrow>
   receive_loop api v = Some (failed, v\<lparr>he := e', history := history v @ [ReceivePacket None failed]\<rparr>)"
  by (simp add: receive_loop.simps [of api v] receive_def)

lemma failed_submission_is_failure:
  "(frame, r) \<in> set (frame_submissions evs) \<Longrightarrow> r \<noteq> ok \<Longrightarrow> filter (failure ok) evs \<noteq> []"
  by (induction evs rule: frame_submissions.induct) auto

lemma run_submissions_Some:
  "main_loop api input w = Some (ok, w') \<Longrightarrow>
   run_submissions api input w = Some (map snd (frame_submissions (new_events w w')))"
  by (simp add: run_submissions_def run_events_def)

lemma fake_atoi_examples:
  "fake_atoi ''640'' = 640" "fake_atoi ''360'' = 360" "fake_atoi ''30'' = 30" "fake_atoi ''1'' = 1"
  by (simp_all add: fake_atoi_def)

lemma main_loop_flush:
  assumes "main_loop api input w = Some (ok, w')"
  shows "\<exists>r ps failed.
      new_events w w' = before_flush (new_events w w') @ SendFrame None r # poll_events ps failed
      \<and> out_file w' = out_file w @ concat (emitted (before_flush (new_events w w'))) @ concat (map fst ps)"
proof -
  from main_loop_history [OF assms] obtain fs evs f' r ps failed where h:
    "loop_history (HVE_OK api) (frames_of input) 0 evs f'"
    "new_events w w' = map WaitForFrames fs @ evs @ SendFrame None r # poll_events ps failed"
    "out_file w' = out_file w @ concat (emitted evs) @ concat (map fst ps)"
    by blast
  from loop_history_pulls [OF h(1)] have "flushes (map WaitForFrames fs @ evs) = []"
    by (simp add: flushes_append pulls_only)
  from before_flush_append [OF this] h(2)
  have b: "before_flush (new_events w w') = map WaitForFrames fs @ evs"
    by simp
  with h(2,3) have
    "new_events w w' = before_flush (new_events w w') @ SendFrame None r # poll_events ps failed
     \<and> out_file w' = out_file w @ concat (emitted (before_flush (new_events w w'))) @ concat (map fst ps)"
    by (simp add: emitted_append pulls_only)
  then show ?thesis
    by blast
qed

section \<open>The claims\<close>

text \<open>
  Claim C1. When \<^verbatim>\<open>main_loop\<close> returns, its result is true exactly when the history before
  the NULL frame holds as many frame submissions as \<^verbatim>\<open>frames\<close> and no failure (no rejected
  submission, no drain ended with \<^verbatim>\<open>failed\<close> set). The result is read off the history before
  the flush alone: whatever the NULL submission returns and whatever the last drain stores
  in \<^verbatim>\<open>failed\<close> does not enter it. In the witness the flush reports \<open>-1\<close> and the run of 30
  frames still returns true.
\<close>

theorem run_success_iff:
  assumes "main_loop api input w = Some (ok, w')"
  shows "ok = (int (length (frame_submissions (before_flush (new_events w w')))) = sint (frames_of input)
               \<and> filter (failure (HVE_OK api)) (before_flush (new_events w w')) = [])"
proof -
  from main_loop_history [OF assms] obtain fs evs f' r ps failed where h:
    "loop_history (HVE_OK api) (frames_of input) 0 evs f'"
    "ok = (f' = frames_of input)"
    "new_events w w' = map WaitForFrames fs @ evs @ SendFrame None r # poll_events ps failed"
    by blast
  from loop_history_pulls [OF h(1)] have "flushes (map WaitForFrames fs @ evs) = []"
    by (simp add: flushes_append pulls_only)
  from before_flush_append [OF this] h(3)
  have b: "before_flush (new_events w w') = map WaitForFrames fs @ evs"
    by simp
  from loop_from_zero_result [OF h(1)] h(2) show ?thesis
    by (simp add: b frame_submissions_append pulls_only)
qed

theorem run_success_iff_witness:
  "run_status (fake 0 every_second [[9], [8]] (- 1)) (args 30 1) start = Some True
   \<and> map_option flushes (run_events (fake 0 every_second [[9], [8]] (- 1)) (args 30 1) start) = Some [- 1]
   \<and> map_option length (run_submissions (fake 0 every_second [[9], [8]] (- 1)) (args 30 1) start) = Some 30
   \<and> (\<exists>ok w'. main_loop (fake 0 every_second [[9], [8]] (- 1)) (args 30 1) start = Some (ok, w')
        \<and> ok = (int (length (frame_submissions (before_flush (new_events start w')))) = sint (frames_of (args 30 1))
                 \<and> filter (failure (HVE_OK (fake 0 every_second [[9], [8]] (- 1)))) (before_flush (new_events start w')) = []))"
proof -
  let ?F = "fake 0 every_second [[9], [8]] (- 1)"
  have e: "run_status ?F (args 30 1) start = Some True"
    "map_option flushes (run_events ?F (args 30 1) start) = Some [- 1]"
    "map_option length (run_submissions ?F (args 30 1) start) = Some 30"
    by code_simp+
  from main_loop_returns [OF fake_drains] obtain ok w' where
    h: "main_loop ?F (args 30 1) start = Some (ok, w')"
    by blast
  from run_success_iff [OF h] h e show ?thesis
    by blast
qed

text \<open>
  Claim C2. However the frame loop was left (counter \<open>f\<close> equal to \<^verbatim>\<open>frames\<close>, or a
  \<^verbatim>\<open>break\<close> with \<open>f\<close> below it), and for an encoder whose drains end, \<^verbatim>\<open>main_loop\<close> goes on
  to send the NULL frame and to drain: it returns, its history is that of the loop followed
  by the NULL submission and the polls, and every packet polled there is appended to
  \<^verbatim>\<open>out_file\<close>. In the witness the second submission is rejected and the two packets of the
  flush are written.
\<close>

theorem flush_always_runs:
  assumes "frame_loop api (frames_of input) 0 (warm_up api 0 w) = Some (f, w1)"
    and "drains api m"
  shows "\<exists>r ps failed w'.
      main_loop api input w = Some (f = frames_of input, w')
      \<and> history w' = history w1 @ SendFrame None r # poll_events ps failed
      \<and> out_file w' = out_file w1 @ concat (map fst ps)"
proof -
  obtain r w2 where s: "send api None w1 = (r, w2)"
    by (metis prod.exhaust)
  from receive_loop_returns [OF assms(2), of w2] obtain failed w' where
    dr: "receive_loop api w2 = Some (failed, w')"
    by blast
  from receive_loop_history [OF dr] obtain ps where ps:
    "history w' = history w2 @ poll_events ps failed"
    "out_file w' = out_file w2 @ concat (map fst ps)"
    by blast
  from assms(1) s dr have "main_loop api input w = Some (f = frames_of input, w')"
    by (simp add: main_loop_def Let_def)
  with ps history_send [OF s] show ?thesis
    by auto
qed

theorem flush_always_runs_witness:
  "run_status (fake 2 three_packets [[9], [8]] 0) (args 3 1) start = Some False
   \<and> run_output (fake 2 three_packets [[9], [8]] 0) (args 3 1) start = Some [1, 1, 2, 1, 3, 1, 9, 8]
   \<and> drains (fake 2 three_packets [[9], [8]] 0) queued
   \<and> (\<exists>f w1 r ps failed w'.
        frame_loop (fake 2 three_packets [[9], [8]] 0) (frames_of (args 3 1)) 0
          (warm_up (fake 2 three_packets [[9], [8]] 0) 0 start) = Some (f, w1)
        \<and> main_loop (fake 2 three_packets [[9], [8]] 0) (args 3 1) start = Some (f = frames_of (args 3 1), w')
        \<and> history w' = history w1 @ SendFrame None r # poll_events ps failed
        \<and> out_file w' = out_file w1 @ concat (map fst ps))"
proof -
  let ?F = "fake 2 three_packets [[9], [8]] 0"
  have e: "run_status ?F (args 3 1) start = Some False"
    "run_output ?F (args 3 1) start = Some [1, 1, 2, 1, 3, 1, 9, 8]"
    by code_simp+
  have d: "drains ?F queued"
    by (rule fake_drains)
  from frame_loop_returns [OF d] obtain f w1 where
    l: "frame_loop ?F (frames_of (args 3 1)) 0 (warm_up ?F 0 start) = Some (f, w1)"
    by blast
  from flush_always_runs [OF l d] l d e show ?thesis
    by blast
qed

text \<open>
  Claim C3. The bytes a run appends to \<^verbatim>\<open>out_file\<close> are the packets the encoder returned
  during the run, concatenated in the order of the history, those of the frame loop and
  those of the flush alike.
\<close>

theorem packets_in_emission_order:
  assumes "main_loop api input w = Some (ok, w')"
  shows "out_file w' = out_file w @ concat (emitted (new_events w w'))"
proof -
  from main_loop_history [OF assms] obtain fs evs r ps failed where h:
    "new_events w w' = map WaitForFrames fs @ evs @ SendFrame None r # poll_events ps failed"
    "out_file w' = out_file w @ concat (emitted evs) @ concat (map fst ps)"
    by blast
  then show ?thesis
    by (simp add: emitted_append pulls_only emitted_poll_events)
qed

theorem packets_in_emission_order_witness:
  "run_output (fake 0 three_packets [[9]] 0) (args 2 1) start = Some [1, 1, 2, 1, 3, 1, 1, 2, 2, 2, 3, 2, 9]
   \<and> map_option emitted (run_events (fake 0 three_packets [[9]] 0) (args 2 1) start)
       = Some [[1, 1], [2, 1], [3, 1], [1, 2], [2, 2], [3, 2], [9]]
   \<and> (\<exists>ok w'. main_loop (fake 0 three_packets [[9]] 0) (args 2 1) start = Some (ok, w')
        \<and> out_file w' = out_file start @ concat (emitted (new_events start w')))"
proof -
  let ?F = "fake 0 three_packets [[9]] 0"
  have e: "run_output ?F (args 2 1) start = Some [1, 1, 2, 1, 3, 1, 1, 2, 2, 2, 3, 2, 9]"
    "map_option emitted (run_events ?F (args 2 1) start)
       = Some [[1, 1], [2, 1], [3, 1], [1, 2], [2, 2], [3, 2], [9]]"
    by code_simp+
  from main_loop_returns [OF fake_drains] obtain ok w' where
    h: "main_loop ?F (args 2 1) start = Some (ok, w')"
    by blast
  from packets_in_emission_order [OF h] h e show ?thesis
    by blast
qed

text \<open>
  Claim C4. In the history of a run every frame submission that succeeded is followed by
  polls up to one that returns no packet, before the next submission. And a drain of an
  encoder that has three packets ready returns after four polls with all three written, in
  order.
\<close>

theorem drained_until_no_packet:
  "(main_loop api input w = Some (ok, w') \<longrightarrow> drained (HVE_OK api) False (new_events w w'))
   \<and> (hve_receive_packet api (he v) = ((Some p1, r1), e1) \<longrightarrow>
      hve_receive_packet api e1 = ((Some p2, r2), e2) \<longrightarrow>
      hve_receive_packet api e2 = ((Some p3, r3), e3) \<longrightarrow>
      hve_receive_packet api e3 = ((None, failed), e4) \<longrightarrow>
      receive_loop api v =
        Some (failed, v\<lparr>he := e4, out_file := out_file v @ p1 @ p2 @ p3,
                        history := history v @ [ReceivePacket (Some p1) r1, ReceivePacket (Some p2) r2,
                                                ReceivePacket (Some p3) r3, ReceivePacket None failed]\<rparr>))"
proof (intro conjI impI)
  assume "main_loop api input w = Some (ok, w')"
  from main_loop_history [OF this] obtain fs evs f' r ps failed where h:
    "loop_history (HVE_OK api) (frames_of input) 0 evs f'"
    "new_events w w' = map WaitForFrames fs @ evs @ SendFrame None r # poll_events ps failed"
    by blast
  from loop_history_drained [OF h(1) drained_flush] h(2)
  show "drained (HVE_OK api) False (new_events w w')"
    by (simp add: drained_pulls)
next
  assume a: "hve_receive_packet api (he v) = ((Some p1, r1), e1)"
    "hve_receive_packet api e1 = ((Some p2, r2), e2)"
    "hve_receive_packet api e2 = ((Some p3, r3), e3)"
    "hve_receive_packet api e3 = ((None, failed), e4)"
  let ?v1 = "v\<lparr>he := e1, out_file := out_file v @ p1,
      history := history v @ [ReceivePacket (Some p1) r1]\<rparr>"
  let ?v2 = "v\<lparr>he := e2, out_file := out_file v @ p1 @ p2,
      history := history v @ [ReceivePacket (Some p1) r1, ReceivePacket (Some p2) r2]\<rparr>"
  let ?v3 = "v\<lparr>he := e3, out_file := out_file v @ p1 @ p2 @ p3,
      history := history v @ [ReceivePacket (Some p1) r1, ReceivePacket (Some p2) r2,
                              ReceivePacket (Some p3) r3]\<rparr>"
  let ?v4 = "v\<lparr>he := e4, out_file := out_file v @ p1 @ p2 @ p3,
      history := history v @ [ReceivePacket (Some p1) r1, ReceivePacket (Some p2) r2,
                              ReceivePacket (Some p3) r3, ReceivePacket None failed]\<rparr>"
  have "receive_loop api v = receive_loop api ?v1"
    using a(1) by (rule receive_loop_step)
  also have "\<dots> = receive_loop api ?v2"
    using a(2) receive_loop_step [of api ?v1 p2 r2 e2] by (cases v) simp
  also have "\<dots> = receive_loop api ?v3"
    using a(3) receive_loop_step [of api ?v2 p3 r3 e3] by (cases v) simp
  also have "\<dots> = Some (failed, ?v4)"
    using a(4) receive_loop_stop [of api ?v3 failed e4] by (cases v) simp
  finally show "receive_loop api v = Some (failed, ?v4)" .
qed

theorem drained_until_no_packet_witness:
  "run_output (fake 0 three_packets [] 0) (args 2 1) start = Some [1, 1, 2, 1, 3, 1, 1, 2, 2, 2, 3, 2]
   \<and> (\<exists>ok w'. main_loop (fake 0 three_packets [] 0) (args 2 1) start = Some (ok, w')
        \<and> drained (HVE_OK (fake 0 three_packets [] 0)) False (new_events start w'))
   \<and> receive_loop (fake 0 three_packets [] 0) (start\<lparr>he := (1, [[1, 1], [2, 1], [3, 1]], 0)\<rparr>)
       = Some (0, start\<lparr>he := (1, [], 0), out_file := [1, 1, 2, 1, 3, 1],
                       history := [ReceivePacket (Some [1, 1]) 0, ReceivePacket (Some [2, 1]) 0,
                                   ReceivePacket (Some [3, 1]) 0, ReceivePacket None 0]\<rparr>)"
proof -
  let ?F = "fake 0 three_packets [] 0"
  let ?v = "start\<lparr>he := (1, [[1, 1], [2, 1], [3, 1]], 0)\<rparr>"
  have e: "run_output ?F (args 2 1) start = Some [1, 1, 2, 1, 3, 1, 1, 2, 2, 2, 3, 2]"
    by code_simp
  from main_loop_returns [OF fake_drains] obtain ok w' where
    h: "main_loop ?F (args 2 1) start = Some (ok, w')"
    by blast
  from drained_until_no_packet [of ?F "args 2 1" start ok w'] h
  have a: "drained (HVE_OK ?F) False (new_events start w')"
    by blast
  have r: "hve_receive_packet ?F (he ?v) = ((Some [1, 1], 0), (1, [[2, 1], [3, 1]], 0))"
    "hve_receive_packet ?F (1, [[2, 1], [3, 1]], 0) = ((Some [2, 1], 0), (1, [[3, 1]], 0))"
    "hve_receive_packet ?F (1, [[3, 1]], 0) = ((Some [3, 1], 0), (1, [], 0))"
    "hve_receive_packet ?F (1, [], 0) = ((None, 0), (1, [], 0))"
    by (simp_all add: fake_def fake_receive_packet_def start_def)
  from drained_until_no_packet [of ?F "args 2 1" start ok w' ?v "[1, 1]" 0 "(1, [[2, 1], [3, 1]], 0)"
      "[2, 1]" 0 "(1, [[3, 1]], 0)" "[3, 1]" 0 "(1, [], 0)" 0 "(1, [], 0)"] r
  have b: "receive_loop ?F ?v =
      Some (0, ?v\<lparr>he := (1, [], 0), out_file := out_file ?v @ [1, 1] @ [2, 1] @ [3, 1],
                    history := history ?v @ [ReceivePacket (Some [1, 1]) 0, ReceivePacket (Some [2, 1]) 0,
                                ReceivePacket (Some [3, 1]) 0, ReceivePacket None 0]\<rparr>)"
    by blast
  have "receive_loop ?F ?v
       = Some (0, start\<lparr>he := (1, [], 0), out_file := [1, 1, 2, 1, 3, 1],
                       history := [ReceivePacket (Some [1, 1]) 0, ReceivePacket (Some [2, 1]) 0,
                                   ReceivePacket (Some [3, 1]) 0, ReceivePacket None 0]\<rparr>)"
    unfolding b by (simp add: start_def)
  with e h a show ?thesis
    by blast
qed

text \<open>
  Claim C5 says that when submission \<open>k \<le> N\<close> fails, the submissions made are strictly fewer
  than \<open>N\<close>. That fails for \<open>k = N\<close>: with 10 frames requested and the 10th submission
  rejected, 10 submissions are made. What holds: when the \<open>k\<close>-th frame submission of a run
  fails, the run made exactly \<open>k\<close> frame submissions and \<open>10 + k\<close> pulls (none after the
  failure), \<open>k\<close> is at most \<^verbatim>\<open>frames\<close>, and the result is false. The flush still runs: the
  history ends with the one NULL submission and the polls up to the one that finds no
  packet, and the packets polled there are appended to \<^verbatim>\<open>out_file\<close>. The witness is the run of
  30 frames whose 10th submission is rejected; the two packets of its flush are written.
\<close>

theorem failed_submission_stops_loop:
  assumes run: "main_loop api input w = Some (ok, w')"
    and k: "0 < k" "k \<le> length (frame_submissions (new_events w w'))"
    and bad: "snd (frame_submissions (new_events w w') ! (k - 1)) \<noteq> HVE_OK api"
  shows "length (frame_submissions (new_events w w')) = k
    \<and> length (pulls (new_events w w')) = 10 + k
    \<and> int k \<le> sint (frames_of input)
    \<and> \<not> ok
    \<and> length (flushes (new_events w w')) = 1
    \<and> (\<exists>r ps failed.
          new_events w w' = before_flush (new_events w w') @ SendFrame None r # poll_events ps failed
          \<and> out_file w' = out_file w @ concat (emitted (before_flush (new_events w w')))
                @ concat (map fst ps))"
proof -
  from main_loop_history [OF run] obtain fs evs f' r ps failed where h:
    "length fs = 10"
    "loop_history (HVE_OK api) (frames_of input) 0 evs f'"
    "ok = (f' = frames_of input)"
    "new_events w w' = map WaitForFrames fs @ evs @ SendFrame None r # poll_events ps failed"
    by blast
  let ?S = "frame_submissions evs"
  from h(4) have S: "frame_submissions (new_events w w') = ?S"
    by (simp add: frame_submissions_append pulls_only frame_submissions_poll_events)
  from h(4) loop_history_pulls [OF h(2)] h(1)
  have P: "length (pulls (new_events w w')) = 10 + length ?S"
    and F: "length (flushes (new_events w w')) = 1"
    by (simp_all add: pulls_append pulls_only pulls_poll_events flushes_append flushes_poll_events)
  note lf = loop_history_last_fails [OF h(2)]
  have len: "length ?S = k"
  proof (rule ccontr)
    assume "length ?S \<noteq> k"
    with k S have lt: "k - 1 < length ?S - 1"
      by simp
    then have "butlast (map snd ?S) ! (k - 1) = map snd ?S ! (k - 1)"
      by (simp add: nth_butlast)
    with lf lt have "map snd ?S ! (k - 1) = HVE_OK api"
      by simp
    with lt bad S show False
      by simp
  qed
  with k have "?S ! (k - 1) \<in> set ?S"
    by simp
  with bad S have nonempty: "filter (failure (HVE_OK api)) evs \<noteq> []"
    using failed_submission_is_failure [of "fst (?S ! (k - 1))" "snd (?S ! (k - 1))" evs "HVE_OK api"]
    by simp
  then have "evs \<noteq> []"
    by auto
  with loop_history_nothing [OF h(2)] have "0 <s frames_of input"
    by blast
  then have "sint (0 :: c_int) \<le> sint (frames_of input)"
    by (simp add: word_sless_alt)
  from loop_history_counter [OF h(2) this] nonempty len
  have "f' \<noteq> frames_of input" "sint f' \<le> sint (frames_of input)" "int k = sint f' + 1"
    by simp_all
  moreover from this have "sint f' \<noteq> sint (frames_of input)"
    using signed_word_eqI [of f' "frames_of input"] by blast
  ultimately have "length (frame_submissions (new_events w w')) = k
    \<and> length (pulls (new_events w w')) = 10 + k
    \<and> int k \<le> sint (frames_of input)
    \<and> \<not> ok
    \<and> length (flushes (new_events w w')) = 1"
    using S P F len h(3) by simp
  with main_loop_flush [OF run] show ?thesis
    by blast
qed

theorem submissions_strictly_fewer_counterexample:
  "run_submissions (fake 10 every_second [] 0) (args 10 1) start = Some [0, 0, 0, 0, 0, 0, 0, 0, 0, - 1]
   \<and> sint (frames_of (args 10 1)) = 10
   \<and> \<not> int (length [0, 0, 0, 0, 0, 0, 0, 0, 0, - 1 :: c_int]) < sint (frames_of (args 10 1))"
  by code_simp

theorem failed_submission_stops_loop_witness:
  "run_submissions (fake 10 every_second [[9], [8]] 0) (args 30 1) start = Some [0, 0, 0, 0, 0, 0, 0, 0, 0, - 1]
   \<and> run_status (fake 10 every_second [[9], [8]] 0) (args 30 1) start = Some False
   \<and> run_output (fake 10 every_second [[9], [8]] 0) (args 30 1) start = Some [2, 4, 6, 8, 9, 8]
   \<and> map_option flushes (run_events (fake 10 every_second [[9], [8]] 0) (args 30 1) start) = Some [0]
   \<and> (\<exists>ok w'. main_loop (fake 10 every_second [[9], [8]] 0) (args 30 1) start = Some (ok, w')
        \<and> (0 :: nat) < 10
        \<and> 10 \<le> length (frame_submissions (new_events start w'))
        \<and> snd (frame_submissions (new_events start w') ! (10 - 1)) \<noteq> HVE_OK (fake 10 every_second [[9], [8]] 0)
        \<and> length (frame_submissions (new_events start w')) = 10
        \<and> length (pulls (new_events start w')) = 10 + 10
        \<and> int 10 \<le> sint (frames_of (args 30 1))
        \<and> \<not> ok
        \<and> length (flushes (new_events start w')) = 1
        \<and> (\<exists>r ps failed.
              new_events start w' = before_flush (new_events start w') @ SendFrame None r # poll_events ps failed
              \<and> out_file w' = out_file start @ concat (emitted (before_flush (new_events start w')))
                    @ concat (map fst ps)))"
proof -
  let ?F = "fake 10 every_second [[9], [8]] 0"
  have e: "run_submissions ?F (args 30 1) start = Some [0, 0, 0, 0, 0, 0, 0, 0, 0, - 1]"
    "run_status ?F (args 30 1) start = Some False"
    "run_output ?F (args 30 1) start = Some [2, 4, 6, 8, 9, 8]"
    "map_option flushes (run_events ?F (args 30 1) start) = Some [0]"
    by code_simp+
  from main_loop_returns [OF fake_drains] obtain ok w' where
    h: "main_loop ?F (args 30 1) start = Some (ok, w')"
    by blast
  from run_submissions_Some [OF h] e(1)
  have s: "map snd (frame_submissions (new_events start w')) = [0, 0, 0, 0, 0, 0, 0, 0, 0, - 1]"
    by simp
  then have "length (map snd (frame_submissions (new_events start w'))) = 10"
    by simp
  then have k: "10 \<le> length (frame_submissions (new_events start w'))"
    by simp
  then have "snd (frame_submissions (new_events start w') ! 9) =
      map snd (frame_submissions (new_events start w')) ! 9"
    by simp
  with s have bad: "snd (frame_submissions (new_events start w') ! (10 - 1)) \<noteq> HVE_OK ?F"
    by (simp add: fake_def)
  have pos: "(0 :: nat) < 10"
    by simp
  note c = failed_submission_stops_loop [OF h pos k bad]
  have "\<exists>ok w'. main_loop ?F (args 30 1) start = Some (ok, w')
        \<and> (0 :: nat) < 10
        \<and> 10 \<le> length (frame_submissions (new_events start w'))
        \<and> snd (frame_submissions (new_events start w') ! (10 - 1)) \<noteq> HVE_OK ?F
        \<and> length (frame_submissions (new_events start w')) = 10
        \<and> length (pulls (new_events start w')) = 10 + 10
        \<and> int 10 \<le> sint (frames_of (args 30 1))
        \<and> \<not> ok
        \<and> length (flushes (new_events start w')) = 1
        \<and> (\<exists>r ps failed.
              new_events start w' = before_flush (new_events start w') @ SendFrame None r # poll_events ps failed
              \<and> out_file w' = out_file start @ concat (emitted (before_flush (new_events start w')))
                    @ concat (map fst ps))"
    using h pos k bad c by (intro exI [of _ ok] exI [of _ w'] conjI) simp_all
  with e show ?thesis
    by (intro conjI)
qed

text \<open>
  Claim C6. With \<^verbatim>\<open>frames\<close> equal to 0 and an encoder whose drains end, \<^verbatim>\<open>main_loop\<close> returns
  true, having submitted no frame. Its history is the ten warm-up pulls, the one NULL
  submission and the polls up to the one that finds no packet; the packets polled there are
  what it appends to \<^verbatim>\<open>out_file\<close>. The result is true whatever the flush reports; in the
  witness it reports \<open>-1\<close>.
\<close>

theorem zero_frames_run:
  assumes zero: "frames_of input = 0" and d: "drains api m"
  shows "\<exists>w' fs r ps failed. main_loop api input w = Some (True, w')
     \<and> frame_submissions (new_events w w') = []
     \<and> flushes (new_events w w') = [r]
     \<and> length fs = 10
     \<and> new_events w w' = map WaitForFrames fs @ SendFrame None r # poll_events ps failed
     \<and> out_file w' = out_file w @ concat (map fst ps)"
proof -
  from main_loop_returns [OF d] obtain ok w' where run: "main_loop api input w = Some (ok, w')"
    by blast
  from main_loop_history [OF run] obtain fs evs f' r ps failed where h:
    "length fs = 10"
    "loop_history (HVE_OK api) (frames_of input) 0 evs f'"
    "ok = (f' = frames_of input)"
    "new_events w w' = map WaitForFrames fs @ evs @ SendFrame None r # poll_events ps failed"
    "out_file w' = out_file w @ concat (emitted evs) @ concat (map fst ps)"
    by blast
  from zero have "\<not> 0 <s frames_of input"
    by simp
  from loop_history_nothing [OF h(2) this] have e: "evs = []" "f' = 0"
    by simp_all
  with h zero run have
    "main_loop api input w = Some (True, w')
     \<and> frame_submissions (new_events w w') = []
     \<and> flushes (new_events w w') = [r]
     \<and> length fs = 10
     \<and> new_events w w' = map WaitForFrames fs @ SendFrame None r # poll_events ps failed
     \<and> out_file w' = out_file w @ concat (map fst ps)"
    by (simp add: frame_submissions_append pulls_only frame_submissions_poll_events
        flushes_append flushes_poll_events)
  then show ?thesis
    by blast
qed

theorem zero_frames_run_witness:
  "frames_of (args 30 0) = 0
   \<and> drains (fake 0 every_second [[9]] (- 1)) queued
   \<and> run_output (fake 0 every_second [[9]] (- 1)) (args 30 0) start = Some [9]
   \<and> (\<exists>w' fs r ps failed. main_loop (fake 0 every_second [[9]] (- 1)) (args 30 0) start = Some (True, w')
        \<and> frame_submissions (new_events start w') = []
        \<and> flushes (new_events start w') = [r]
        \<and> length fs = 10
        \<and> new_events start w' = map WaitForFrames fs @ SendFrame None r # poll_events ps failed
        \<and> out_file w' = out_file start @ concat (map fst ps))"
proof -
  let ?F = "fake 0 every_second [[9]] (- 1)"
  have z: "frames_of (args 30 0) = 0"
    by (simp add: frames_of_def args_def)
  have d: "drains ?F queued"
    by (rule fake_drains)
  have e: "run_output ?F (args 30 0) start = Some [9]"
    by code_simp
  from zero_frames_run [OF z d, of start] z d e show ?thesis
    by blast
qed

text \<open>
  Claim C7 says \<^verbatim>\<open>frames\<close> is the exact product for every pair of inputs. An \<^verbatim>\<open>int\<close> cannot
  hold every product of two: for 65536 seconds at 65536 frames the product is \<open>2^32\<close> and
  \<^verbatim>\<open>frames\<close> wraps to 0. What holds: when the exact product lies in the range of \<^verbatim>\<open>int\<close>,
  \<^verbatim>\<open>frames\<close> equals it, and a run that returns true has made exactly that many frame
  submissions; 30 frames a second for 1 second gives 30.
\<close>

theorem frames_is_product_in_range:
  assumes "- (2 ^ 31) \<le> sint (seconds input) * sint (framerate input)"
    and "sint (seconds input) * sint (framerate input) < 2 ^ 31"
  shows "sint (frames_of input) = sint (seconds input) * sint (framerate input)
    \<and> (main_loop api input w = Some (True, w') \<longrightarrow>
         int (length (frame_submissions (new_events w w'))) = sint (seconds input) * sint (framerate input))
    \<and> frames_of \<lparr>width = wd, height = ht, framerate = 30, seconds = 1, filename = name\<rparr> = 30"
proof (intro conjI impI)
  from assms show p: "sint (frames_of input) = sint (seconds input) * sint (framerate input)"
    by (simp add: frames_of_def sint_word_ariths signed_take_bit_int_eq_self)
  assume "main_loop api input w = Some (True, w')"
  from main_loop_history [OF this] obtain fs evs f' r ps failed where h:
    "loop_history (HVE_OK api) (frames_of input) 0 evs f'"
    "f' = frames_of input"
    "new_events w w' = map WaitForFrames fs @ evs @ SendFrame None r # poll_events ps failed"
    by blast
  from loop_from_zero_result [OF h(1)] h(2)
  have "int (length (frame_submissions evs)) = sint (frames_of input)"
    by simp
  with h(3) p
  show "int (length (frame_submissions (new_events w w'))) = sint (seconds input) * sint (framerate input)"
    by (simp add: frame_submissions_append pulls_only frame_submissions_poll_events)
next
  show "frames_of \<lparr>width = wd, height = ht, framerate = 30, seconds = 1, filename = name\<rparr> = 30"
    by (simp add: frames_of_def)
qed

theorem frames_exact_product_counterexample:
  "sint (frames_of (args 65536 65536)) = 0
   \<and> sint (seconds (args 65536 65536)) * sint (framerate (args 65536 65536)) = 4294967296"
  by (simp add: frames_of_def args_def)

theorem frames_is_product_in_range_witness:
  "- (2 ^ 31) \<le> sint (seconds (args 30 1)) * sint (framerate (args 30 1))
   \<and> sint (seconds (args 30 1)) * sint (framerate (args 30 1)) < 2 ^ 31
   \<and> sint (frames_of (args 30 1)) = 30
   \<and> (\<exists>w'. main_loop (fake 0 every_second [[9], [8]] 0) (args 30 1) start = Some (True, w')
        \<and> int (length (frame_submissions (new_events start w'))) = 30)
   \<and> frames_of \<lparr>width = 640, height = 360, framerate = 30, seconds = 1, filename = ''out.hevc''\<rparr> = 30"
proof -
  let ?F = "fake 0 every_second [[9], [8]] 0"
  have b: "- (2 ^ 31) \<le> sint (seconds (args 30 1)) * sint (framerate (args 30 1))"
    "sint (seconds (args 30 1)) * sint (framerate (args 30 1)) < 2 ^ 31"
    by (simp_all add: args_def)
  have p: "sint (seconds (args 30 1)) * sint (framerate (args 30 1)) = 30"
    by (simp add: args_def)
  have e: "run_status ?F (args 30 1) start = Some True"
    by code_simp
  from main_loop_returns [OF fake_drains] obtain ok w' where
    "main_loop ?F (args 30 1) start = Some (ok, w')"
    by blast
  with e have h: "main_loop ?F (args 30 1) start = Some (True, w')"
    by (simp add: run_status_def)
  from frames_is_product_in_range [OF b, of ?F start w' 640 360 "''out.hevc''"] h b p show ?thesis
    by auto
qed

text \<open>
  Claim C8. \<^verbatim>\<open>main\<close> returns 1 when fewer than five arguments follow the program name (the
  one check \<^verbatim>\<open>process_user_input\<close> makes), 2 when the output file does not open, 3 when
  \<^verbatim>\<open>hve_init\<close> returns NULL, and 0 once \<^verbatim>\<open>main_loop\<close> has returned, whatever its status; the
  four codes differ. In the witness the run of the last case returns false.
\<close>

theorem exit_codes:
  "(int (length argv) < 6 \<longrightarrow> main pf api argv = Some 1)
   \<and> (\<not> int (length argv) < 6 \<longrightarrow> \<not> ofstream_open pf (argv ! 5) \<longrightarrow> main pf api argv = Some 2)
   \<and> (\<not> int (length argv) < 6 \<longrightarrow> ofstream_open pf (argv ! 5) \<longrightarrow>
        hve_init pf \<lparr>config_width = atoi pf (argv ! 1), config_height = atoi pf (argv ! 2),
                     config_framerate = atoi pf (argv ! 3), config_pixel_format = ''yuyv422''\<rparr> = None \<longrightarrow>
        main pf api argv = Some 3)
   \<and> (\<not> int (length argv) < 6 \<longrightarrow> ofstream_open pf (argv ! 5) \<longrightarrow>
        hve_init pf \<lparr>config_width = atoi pf (argv ! 1), config_height = atoi pf (argv ! 2),
                     config_framerate = atoi pf (argv ! 3), config_pixel_format = ''yuyv422''\<rparr> = Some encoder \<longrightarrow>
        main_loop api
          \<lparr>width = atoi pf (argv ! 1), height = atoi pf (argv ! 2), framerate = atoi pf (argv ! 3),
           seconds = atoi pf (argv ! 4), filename = argv ! 5\<rparr>
          \<lparr>realsense = pipe_start pf (atoi pf (argv ! 1)) (atoi pf (argv ! 2)) (atoi pf (argv ! 3)),
           he = encoder, out_file = [], history = []\<rparr> = Some (status, w') \<longrightarrow>
        main pf api argv = Some 0)
   \<and> distinct [0, 1, 2, 3 :: c_int]"
proof (intro conjI impI)
  assume "int (length argv) < 6"
  then have "process_user_input (atoi pf) argv
      \<lparr>width = 0, height = 0, framerate = 0, seconds = 0, filename = []\<rparr>
      \<lparr>config_width = 0, config_height = 0, config_framerate = 0, config_pixel_format = []\<rparr>
    = (- 1, \<lparr>width = 0, height = 0, framerate = 0, seconds = 0, filename = []\<rparr>,
       \<lparr>config_width = 0, config_height = 0, config_framerate = 0, config_pixel_format = []\<rparr>)"
    by (simp add: process_user_input_def)
  then show "main pf api argv = Some 1"
    by (simp add: main_def)
next
  assume "\<not> int (length argv) < 6" and "\<not> ofstream_open pf (argv ! 5)"
  then show "main pf api argv = Some 2"
    by (simp add: main_def process_user_input_def)
next
  assume "\<not> int (length argv) < 6" and "ofstream_open pf (argv ! 5)"
    and "hve_init pf \<lparr>config_width = atoi pf (argv ! 1), config_height = atoi pf (argv ! 2),
                     config_framerate = atoi pf (argv ! 3), config_pixel_format = ''yuyv422''\<rparr> = None"
  then show "main pf api argv = Some 3"
    by (simp add: main_def process_user_input_def)
next
  assume "\<not> int (length argv) < 6" and "ofstream_open pf (argv ! 5)"
    and "hve_init pf \<lparr>config_width = atoi pf (argv ! 1), config_height = atoi pf (argv ! 2),
                     config_framerate = atoi pf (argv ! 3), config_pixel_format = ''yuyv422''\<rparr> = Some encoder"
    and "main_loop api
          \<lparr>width = atoi pf (argv ! 1), height = atoi pf (argv ! 2), framerate = atoi pf (argv ! 3),
           seconds = atoi pf (argv ! 4), filename = argv ! 5\<rparr>
          \<lparr>realsense = pipe_start pf (atoi pf (argv ! 1)) (atoi pf (argv ! 2)) (atoi pf (argv ! 3)),
           he = encoder, out_file = [], history = []\<rparr> = Some (status, w')"
  then show "main pf api argv = Some 0"
    by (simp add: main_def process_user_input_def init_realsense_def)
next
  show "distinct [0, 1, 2, 3 :: c_int]"
    by simp
qed

theorem exit_codes_witness:
  "main fake_platform (fake 2 three_packets [] 0) [''capture''] = Some 1
   \<and> main (fake_platform\<lparr>ofstream_open := (\<lambda>name. False)\<rparr>) (fake 2 three_packets [] 0)
        [''capture'', ''640'', ''360'', ''30'', ''1'', ''out.hevc''] = Some 2
   \<and> main (fake_platform\<lparr>hve_init := (\<lambda>config. None)\<rparr>) (fake 2 three_packets [] 0)
        [''capture'', ''640'', ''360'', ''30'', ''1'', ''out.hevc''] = Some 3
   \<and> run_status (fake 2 three_packets [] 0) (args 30 1) start = Some False
   \<and> main fake_platform (fake 2 three_packets [] 0)
        [''capture'', ''640'', ''360'', ''30'', ''1'', ''out.hevc''] = Some 0"
proof -
  let ?F = "fake 2 three_packets [] 0"
  let ?argv = "[''capture'', ''640'', ''360'', ''30'', ''1'', ''out.hevc'']"
  have c1: "main fake_platform ?F [''capture''] = Some 1"
    using exit_codes [of "[''capture'']" fake_platform ?F] by simp
  have c2: "main (fake_platform\<lparr>ofstream_open := (\<lambda>name. False)\<rparr>) ?F ?argv = Some 2"
    using exit_codes [of ?argv "fake_platform\<lparr>ofstream_open := (\<lambda>name. False)\<rparr>" ?F] by simp
  have c3: "main (fake_platform\<lparr>hve_init := (\<lambda>config. None)\<rparr>) ?F ?argv = Some 3"
    using exit_codes [of ?argv "fake_platform\<lparr>hve_init := (\<lambda>config. None)\<rparr>" ?F]
    by (simp add: fake_platform_def)
  have e: "run_status ?F (args 30 1) start = Some False"
    by code_simp
  from main_loop_returns [OF fake_drains] obtain status w' where
    h: "main_loop ?F (args 30 1) start = Some (status, w')"
    by blast
  have c4: "main fake_platform ?F ?argv = Some 0"
    using exit_codes [of ?argv fake_platform ?F "(0, [], 0)" status w'] h
    by (simp add: fake_platform_def fake_atoi_examples args_def start_def)
  from c1 c2 c3 e c4 show ?thesis
    by (intro conjI)
qed



text \<open>
  Claim C10 says that a negative product of seconds and framerate leaves the loop body
  unexecuted and the result false. The product is computed in \<^verbatim>\<open>int\<close>: for -1431655765 seconds
  at 3 frames the exact product is negative, \<^verbatim>\<open>frames\<close> wraps to 1, one frame is submitted and
  the result is true. What holds: when the exact product is negative and not below
  \<open>-2^31\<close>, and the encoder's drains end, \<^verbatim>\<open>main_loop\<close> returns false; its history is the ten
  warm-up pulls, the one NULL submission and the polls up to the one that finds no packet,
  with no frame submitted, and the packets polled in the flush are what it appends to
  \<^verbatim>\<open>out_file\<close>.
\<close>

theorem negative_frames_run:
  assumes neg: "sint (seconds input) * sint (framerate input) < 0"
    and range: "- (2 ^ 31) \<le> sint (seconds input) * sint (framerate input)"
    and d: "drains api m"
  shows "\<exists>w' fs r ps failed. main_loop api input w = Some (False, w')
     \<and> frame_submissions (new_events w w') = []
     \<and> length (pulls (new_events w w')) = 10
     \<and> flushes (new_events w w') = [r]
     \<and> length fs = 10
     \<and> new_events w w' = map WaitForFrames fs @ SendFrame None r # poll_events ps failed
     \<and> out_file w' = out_file w @ concat (map fst ps)"
proof -
  from neg range have "sint (frames_of input) = sint (seconds input) * sint (framerate input)"
    by (simp add: frames_of_def sint_word_ariths signed_take_bit_int_eq_self)
  with neg have wrapped: "sint (frames_of input) < 0"
    by simp
  from main_loop_returns [OF d] obtain ok w' where run: "main_loop api input w = Some (ok, w')"
    by blast
  from main_loop_history [OF run] obtain fs evs f' r ps failed where h:
    "length fs = 10"
    "loop_history (HVE_OK api) (frames_of input) 0 evs f'"
    "ok = (f' = frames_of input)"
    "new_events w w' = map WaitForFrames fs @ evs @ SendFrame None r # poll_events ps failed"
    "out_file w' = out_file w @ concat (emitted evs) @ concat (map fst ps)"
    by blast
  from wrapped have "\<not> 0 <s frames_of input"
    by (simp add: word_sless_alt)
  from loop_history_nothing [OF h(2) this] have e: "evs = []" "f' = 0"
    by simp_all
  from wrapped have "frames_of input \<noteq> 0"
    by auto
  with e h run have
    "main_loop api input w = Some (False, w')
     \<and> frame_submissions (new_events w w') = []
     \<and> length (pulls (new_events w w')) = 10
     \<and> flushes (new_events w w') = [r]
     \<and> length fs = 10
     \<and> new_events w w' = map WaitForFrames fs @ SendFrame None r # poll_events ps failed
     \<and> out_file w' = out_file w @ concat (map fst ps)"
    by (simp add: frame_submissions_append pulls_only frame_submissions_poll_events
        flushes_append flushes_poll_events pulls_append pulls_poll_events)
  then show ?thesis
    by blast
qed

theorem negative_product_counterexample:
  "sint (seconds (args 3 (- 1431655765))) * sint (framerate (args 3 (- 1431655765))) < 0
   \<and> sint (frames_of (args 3 (- 1431655765))) = 1
   \<and> run_submissions (fake 0 every_second [[9]] 0) (args 3 (- 1431655765)) start = Some [0]
   \<and> run_status (fake 0 every_second [[9]] 0) (args 3 (- 1431655765)) start = Some True"
proof -
  have "sint (seconds (args 3 (- 1431655765))) * sint (framerate (args 3 (- 1431655765))) < 0"
    "sint (frames_of (args 3 (- 1431655765))) = 1"
    by (simp_all add: frames_of_def args_def)
  moreover have
    "run_submissions (fake 0 every_second [[9]] 0) (args 3 (- 1431655765)) start = Some [0]"
    "run_status (fake 0 every_second [[9]] 0) (args 3 (- 1431655765)) start = Some True"
    by code_simp+
  ultimately show ?thesis
    by (intro conjI)
qed

theorem negative_frames_run_witness:
  "sint (seconds (args 30 (- 1))) * sint (framerate (args 30 (- 1))) < 0
   \<and> - (2 ^ 31) \<le> sint (seconds (args 30 (- 1))) * sint (framerate (args 30 (- 1)))
   \<and> drains (fake 0 every_second [[9]] 0) queued
   \<and> run_status (fake 0 every_second [[9]] 0) (args 30 (- 1)) start = Some False
   \<and> run_output (fake 0 every_second [[9]] 0) (args 30 (- 1)) start = Some [9]
   \<and> (\<exists>w' fs r ps failed. main_loop (fake 0 every_second [[9]] 0) (args 30 (- 1)) start = Some (False, w')
        \<and> frame_submissions (new_events start w') = []
        \<and> length (pulls (new_events start w')) = 10
        \<and> flushes (new_events start w') = [r]
        \<and> length fs = 10
        \<and> new_events start w' = map WaitForFrames fs @ SendFrame None r # poll_events ps failed
        \<and> out_file w' = out_file start @ concat (map fst ps))"
proof -
  let ?F = "fake 0 every_second [[9]] 0"
  have n: "sint (seconds (args 30 (- 1))) * sint (framerate (args 30 (- 1))) < 0"
    "- (2 ^ 31) \<le> sint (seconds (args 30 (- 1))) * sint (framerate (args 30 (- 1)))"
    by (simp_all add: args_def)
  have d: "drains ?F queued"
    by (rule fake_drains)
  have e: "run_status ?F (args 30 (- 1)) start = Some False"
    "run_output ?F (args 30 (- 1)) start = Some [9]"
    by code_simp+
  from negative_frames_run [OF n d, of start] n d e show ?thesis
    by blast
qed

end
